theory Spec2Isabelle
  imports Main "HOL-Library.Sublist" "HOL-Library.AList"
begin

section \<open>Query parameters\<close>

text \<open>
  The controller \<^verbatim>\<open>controllers/bootcamps.js\<close> reads \<^verbatim>\<open>req.query\<close>, the object that the
  framework's query-string parser builds: every value is a string, an array of values or
  a nested object (\<^verbatim>\<open>price[gt]=100\<close> gives \<^verbatim>\<open>{price: {gt: "100"}}\<close>). An object is the
  list of its own properties in enumeration order.

  Strings are lists of \<^typ>\<open>char\<close>, which covers the code units below 256; numbers are
  mathematical integers, which is what the program's arithmetic computes as long as every
  value stays within the exactly represented range of the language's numbers.
\<close>

datatype qval = QStr string | QArr "qval list" | QObj "(string \<times> qval) list"

type_synonym obj = "(string \<times> qval) list"

section \<open>Built-in operations of the language\<close>

subsection \<open>Strings: join, split, conversion to string\<close>

fun join :: "string \<Rightarrow> string list \<Rightarrow> string" where
  "join sep [] = []"
| "join sep [x] = x"
| "join sep (x # y # ys) = x @ sep @ join sep (y # ys)"

text \<open>
  \<^verbatim>\<open>s.split(sep)\<close> cuts at every separator character and keeps empty pieces; the
  result is never empty. \<open>splitWhere\<close> cuts at every character satisfying a predicate.
\<close>

fun splitWhere :: "(char \<Rightarrow> bool) \<Rightarrow> string \<Rightarrow> string list" where
  "splitWhere P [] = [[]]"
| "splitWhere P (c # cs) =
     (if P c then [] # splitWhere P cs
      else (case splitWhere P cs of
              [] \<Rightarrow> [[c]]
            | x # xs \<Rightarrow> (c # x) # xs))"

definition split :: "char \<Rightarrow> string \<Rightarrow> string list" where
  "split sep s = splitWhere (\<lambda>c. c = sep) s"

text \<open>
  The conversion of a parameter value to a string: an array is its elements joined by
  commas, an object is \<^verbatim>\<open>[object Object]\<close>. An object with a property named
  \<^verbatim>\<open>toString\<close> or \<^verbatim>\<open>valueOf\<close> of its own, which would shadow the inherited conversion,
  is outside this model.
\<close>

fun toString :: "qval \<Rightarrow> string" where
  "toString (QStr s) = s"
| "toString (QArr vs) = join '','' (map toString vs)"
| "toString (QObj ps) = ''[object Object]''"

text \<open>The string of an argument that may be \<^verbatim>\<open>undefined\<close> (a missing property).\<close>

definition argString :: "qval option \<Rightarrow> string" where
  "argString v = (case v of None \<Rightarrow> ''undefined'' | Some x \<Rightarrow> toString x)"

text \<open>Truthiness of a property value: \<^verbatim>\<open>undefined\<close> and the empty string are falsy.\<close>

definition truthy :: "qval option \<Rightarrow> bool" where
  "truthy v = (case v of None \<Rightarrow> False | Some (QStr s) \<Rightarrow> s \<noteq> [] | Some _ \<Rightarrow> True)"

subsection \<open>parseInt with radix 10\<close>

definition isDigit :: "char \<Rightarrow> bool" where
  "isDigit c = (48 \<le> (of_char c :: nat) \<and> (of_char c :: nat) \<le> 57)"

definition isWhiteSpace :: "char \<Rightarrow> bool" where
  "isWhiteSpace c = ((of_char c :: nat) \<in> {9, 10, 11, 12, 13, 32, 160})"

definition digitValue :: "char \<Rightarrow> int" where
  "digitValue c = int (of_char c) - 48"

text \<open>
  \<^verbatim>\<open>parseInt(x, 10)\<close>: leading white space is dropped, one sign is read, then the longest
  run of decimal digits; with no digit the result is \<^verbatim>\<open>NaN\<close>, here \<open>None\<close>.
\<close>

definition parseInt :: "string \<Rightarrow> int option" where
  "parseInt inputString =
     (let S = dropWhile isWhiteSpace inputString;
          sign = (case S of c # _ \<Rightarrow> if c = CHR ''-'' then - 1 else 1 | [] \<Rightarrow> (1 :: int));
          S' = (case S of c # cs \<Rightarrow> if c = CHR ''+'' \<or> c = CHR ''-'' then cs else S | [] \<Rightarrow> S);
          Z = takeWhile isDigit S'
      in if Z = [] then None
         else Some (sign * foldl (\<lambda>n c. 10 * n + digitValue c) 0 Z))"

text \<open>\<^verbatim>\<open>x || d\<close> for a number \<open>x\<close>: \<^verbatim>\<open>NaN\<close> and \<open>0\<close> are falsy.\<close>

definition orDefault :: "int option \<Rightarrow> int \<Rightarrow> int" where
  "orDefault x d = (case x of None \<Rightarrow> d | Some n \<Rightarrow> if n = 0 then d else n)"

subsection \<open>JSON.stringify\<close>

definition dquote :: char where
  "dquote = CHR 0x22"

definition backslash :: char where
  "backslash = CHR 0x5C"

definition hexDigit :: "nat \<Rightarrow> char" where
  "hexDigit n = ''0123456789abcdef'' ! (n mod 16)"

definition quoteChar :: "char \<Rightarrow> string" where
  "quoteChar c =
     (if c = CHR 0x08 then [backslash, CHR ''b'']
      else if c = CHR 0x09 then [backslash, CHR ''t'']
      else if c = CHR 0x0A then [backslash, CHR ''n'']
      else if c = CHR 0x0C then [backslash, CHR ''f'']
      else if c = CHR 0x0D then [backslash, CHR ''r'']
      else if c = dquote then [backslash, dquote]
      else if c = backslash then [backslash, backslash]
      else if (of_char c :: nat) < 0x20
      then [backslash, CHR ''u'', CHR ''0'', CHR ''0'',
            hexDigit (of_char c div 16), hexDigit (of_char c)]
      else [c])"

definition quoteJSONString :: "string \<Rightarrow> string" where
  "quoteJSONString s = dquote # concat (map quoteChar s) @ [dquote]"

fun JSON_stringify :: "qval \<Rightarrow> string" where
  "JSON_stringify (QStr s) = quoteJSONString s"
| "JSON_stringify (QArr vs) = ''['' @ join '','' (map JSON_stringify vs) @ '']''"
| "JSON_stringify (QObj ps) =
     ''{'' @ join '','' (map (\<lambda>(k, v). quoteJSONString k @ '':'' @ JSON_stringify v) ps) @ ''}''"

subsection \<open>The regular expression \<^verbatim>\<open>/\b(gt|gte|lt|lte|in)\b/g\<close>\<close>

text \<open>\<^verbatim>\<open>\w\<close>: a letter, a digit or the underscore.\<close>

definition isWordChar :: "char \<Rightarrow> bool" where
  "isWordChar c =
     (let n = (of_char c :: nat)
      in (48 \<le> n \<and> n \<le> 57) \<or> (65 \<le> n \<and> n \<le> 90) \<or> n = 95 \<or> (97 \<le> n \<and> n \<le> 122))"

definition wordBefore :: "char option \<Rightarrow> bool" where
  "wordBefore prev = (case prev of None \<Rightarrow> False | Some c \<Rightarrow> isWordChar c)"

definition wordAfter :: "string \<Rightarrow> bool" where
  "wordAfter rest = (case rest of [] \<Rightarrow> False | c # _ \<Rightarrow> isWordChar c)"

text \<open>
  \<^verbatim>\<open>\b\<close> holds at a position when exactly one of the character before it and the
  character at it is a word character.
\<close>

definition wordBoundary :: "char option \<Rightarrow> string \<Rightarrow> bool" where
  "wordBoundary prev rest = (wordBefore prev \<noteq> wordAfter rest)"

text \<open>The alternatives of the group, in the order the expression tries them.\<close>

definition operators :: "string list" where
  "operators = [''gt'', ''gte'', ''lt'', ''lte'', ''in'']"

text \<open>
  A match at one position, where \<open>prev\<close> is the character before it: a boundary, the
  first alternative that is followed by a boundary.
\<close>

definition matchAt :: "char option \<Rightarrow> string \<Rightarrow> string option" where
  "matchAt prev rest =
     (if wordBoundary prev rest
      then find (\<lambda>t. prefix t rest \<and> wordBoundary (Some (last t)) (drop (length t) rest)) operators
      else None)"

text \<open>
  \<^verbatim>\<open>queryStr.replace(re, match => `$${match}`)\<close> with the global flag: scan from the
  left; at a match emit \<^verbatim>\<open>$\<close> and the match and go on behind it, otherwise copy one
  character.
\<close>

function replaceFrom :: "char option \<Rightarrow> string \<Rightarrow> string" where
  "replaceFrom prev [] = []"
| "replaceFrom prev (c # cs) =
     (case matchAt prev (c # cs) of
        Some t \<Rightarrow> CHR ''$'' # t @ replaceFrom (Some (last t)) (drop (length t) (c # cs))
      | None \<Rightarrow> c # replaceFrom (Some c) cs)"
  by pat_completeness auto
termination
proof (relation "measure (\<lambda>(prev, s). length s)")
  fix prev :: "char option" and c :: char and cs t :: string
  assume "matchAt prev (c # cs) = Some t"
  then have "find (\<lambda>t. prefix t (c # cs)
                \<and> wordBoundary (Some (last t)) (drop (length t) (c # cs))) operators = Some t"
    by (simp add: matchAt_def split: if_splits)
  then have "t \<in> set operators"
    by (auto simp: find_Some_iff)
  then have "t \<noteq> []"
    by (auto simp: operators_def)
  then show "((Some (last t), drop (length t) (c # cs)), (prev, c # cs))
               \<in> measure (\<lambda>(prev, s). length s)"
    by (cases t) auto
qed auto

definition replaceOps :: "string \<Rightarrow> string" where
  "replaceOps s = replaceFrom None s"

subsection \<open>JSON.parse\<close>

text \<open>
  The parser covers the texts built of strings, arrays and objects, which are the texts
  \<open>JSON_stringify\<close> produces for query parameters; \<open>None\<close> is the syntax error. A key
  that occurs twice in an object keeps its first position and its last value.
\<close>

definition hexValue :: "char \<Rightarrow> nat option" where
  "hexValue c =
     (let n = (of_char c :: nat)
      in if 48 \<le> n \<and> n \<le> 57 then Some (n - 48)
         else if 65 \<le> n \<and> n \<le> 70 then Some (n - 55)
         else if 97 \<le> n \<and> n \<le> 102 then Some (n - 87)
         else None)"

definition unescape :: "char \<Rightarrow> char option" where
  "unescape e =
     (if e = dquote then Some dquote
      else if e = backslash then Some backslash
      else if e = CHR ''/'' then Some CHR ''/''
      else if e = CHR ''b'' then Some (CHR 0x08)
      else if e = CHR ''f'' then Some (CHR 0x0C)
      else if e = CHR ''n'' then Some (CHR 0x0A)
      else if e = CHR ''r'' then Some (CHR 0x0D)
      else if e = CHR ''t'' then Some (CHR 0x09)
      else None)"

definition unicodeEscape :: "char \<Rightarrow> char \<Rightarrow> char \<Rightarrow> char \<Rightarrow> char option" where
  "unicodeEscape a b c d =
     (case (hexValue a, hexValue b, hexValue c, hexValue d) of
        (Some x, Some y, Some z, Some w) \<Rightarrow>
          if x = 0 \<and> y = 0 then Some (char_of (16 * z + w)) else None
      | _ \<Rightarrow> None)"

text \<open>The characters of a string literal after its opening quote, and the text behind it.\<close>

fun parseString :: "string \<Rightarrow> (string \<times> string) option" where
  "parseString [] = None"
| "parseString (c # cs) =
     (if c = dquote then Some ([], cs)
      else if c = backslash then
        (case cs of
           [] \<Rightarrow> None
         | e # es \<Rightarrow>
             if e = CHR ''u'' then
               (case es of
                  h1 # h2 # h3 # h4 # rest \<Rightarrow>
                    (case unicodeEscape h1 h2 h3 h4 of
                       None \<Rightarrow> None
                     | Some d \<Rightarrow> map_option (apfst ((#) d)) (parseString rest))
                | _ \<Rightarrow> None)
             else
               (case unescape e of
                  None \<Rightarrow> None
                | Some d \<Rightarrow> map_option (apfst ((#) d)) (parseString es)))
      else if (of_char c :: nat) < 0x20 then None
      else map_option (apfst ((#) c)) (parseString cs))"

definition isJSONSpace :: "char \<Rightarrow> bool" where
  "isJSONSpace c = (c = CHR 0x20 \<or> c = CHR 0x09 \<or> c = CHR 0x0A \<or> c = CHR 0x0D)"

definition skipWs :: "string \<Rightarrow> string" where
  "skipWs s = dropWhile isJSONSpace s"

text \<open>
  Values, array elements and object members; the first argument bounds the number of
  nested calls, and \<open>JSON_parse\<close> starts with more than the text can use.
\<close>

fun parseValue :: "nat \<Rightarrow> string \<Rightarrow> (qval \<times> string) option"
  and parseElements :: "nat \<Rightarrow> qval list \<Rightarrow> string \<Rightarrow> (qval \<times> string) option"
  and parseMembers :: "nat \<Rightarrow> obj \<Rightarrow> string \<Rightarrow> (qval \<times> string) option"
where
  "parseValue 0 s = None"
| "parseValue (Suc n) s =
     (case skipWs s of
        [] \<Rightarrow> None
      | c # cs \<Rightarrow>
          if c = dquote then map_option (apfst QStr) (parseString cs)
          else if c = CHR ''['' then
            (case skipWs cs of
               [] \<Rightarrow> None
             | d # ds \<Rightarrow> if d = CHR '']'' then Some (QArr [], ds) else parseElements n [] cs)
          else if c = CHR ''{'' then
            (case skipWs cs of
               [] \<Rightarrow> None
             | d # ds \<Rightarrow> if d = CHR ''}'' then Some (QObj [], ds) else parseMembers n [] cs)
          else None)"
| "parseElements 0 acc s = None"
| "parseElements (Suc n) acc s =
     (case parseValue n s of
        None \<Rightarrow> None
      | Some (v, r) \<Rightarrow>
          (case skipWs r of
             [] \<Rightarrow> None
           | d # ds \<Rightarrow>
               if d = CHR '','' then parseElements n (acc @ [v]) ds
               else if d = CHR '']'' then Some (QArr (acc @ [v]), ds)
               else None))"
| "parseMembers 0 acc s = None"
| "parseMembers (Suc n) acc s =
     (case skipWs s of
        [] \<Rightarrow> None
      | q # qs \<Rightarrow>
          if q \<noteq> dquote then None
          else
            (case parseString qs of
               None \<Rightarrow> None
             | Some (k, r) \<Rightarrow>
                 (case skipWs r of
                    [] \<Rightarrow> None
                  | c # cs \<Rightarrow>
                      if c \<noteq> CHR '':'' then None
                      else
                        (case parseValue n cs of
                           None \<Rightarrow> None
                         | Some (v, r') \<Rightarrow>
                             (case skipWs r' of
                                [] \<Rightarrow> None
                              | d # ds \<Rightarrow>
                                  if d = CHR '','' then parseMembers n (AList.update k v acc) ds
                                  else if d = CHR ''}'' then Some (QObj (AList.update k v acc), ds)
                                  else None)))))"

definition JSON_parse :: "string \<Rightarrow> qval option" where
  "JSON_parse text =
     (case parseValue (Suc (length text)) text of
        None \<Rightarrow> None
      | Some (v, r) \<Rightarrow> if skipWs r = [] then Some v else None)"

section \<open>Objects in the heap\<close>

text \<open>
  Objects are referred to by address: the heap is the list of the objects allocated so
  far and a reference is an index into it. Only top-level objects are ever written by the
  handler, so nested values are kept as values.
\<close>

type_synonym heap = "obj list"

type_synonym ref = nat

text \<open>The spread copy \<^verbatim>\<open>{ ...o }\<close>: a new object with the properties of \<open>o\<close>.\<close>

definition spread :: "heap \<Rightarrow> ref \<Rightarrow> heap \<times> ref" where
  "spread h a = (h @ [h ! a], length h)"

text \<open>\<^verbatim>\<open>delete o[k]\<close> writes to the object that \<open>r\<close> refers to.\<close>

definition deleteProp :: "heap \<Rightarrow> ref \<Rightarrow> string \<Rightarrow> heap" where
  "deleteProp h r k = h[r := filter (\<lambda>(k', v). k' \<noteq> k) (h ! r)]"

section \<open>The handler getBootcamps\<close>

subsection \<open>The filter: lines 13 to 29\<close>

definition removeFields :: "string list" where
  "removeFields = [''select'', ''sort'', ''page'', ''limit'']"

text \<open>
  \<^verbatim>\<open>const reqQuery = { ...req.query }\<close> and the loop
  \<^verbatim>\<open>removeFields.forEach(param => delete reqQuery[param])\<close>; \<open>q\<close> is the address of
  \<^verbatim>\<open>req.query\<close>. The result is the heap afterwards and the address of \<^verbatim>\<open>reqQuery\<close>.
\<close>

definition reqQuery :: "heap \<Rightarrow> ref \<Rightarrow> heap \<times> ref" where
  "reqQuery h q =
     (let (h1, r) = spread h q
      in (foldl (\<lambda>h' param. deleteProp h' r param) h1 removeFields, r))"

text \<open>\<^verbatim>\<open>JSON.stringify(reqQuery)\<close> followed by the replacement of the operators.\<close>

definition queryStr :: "obj \<Rightarrow> string" where
  "queryStr fields = replaceOps (JSON_stringify (QObj fields))"

text \<open>The argument of \<^verbatim>\<open>Bootcamp.find\<close>: \<^verbatim>\<open>JSON.parse(queryStr)\<close>.\<close>

definition findArg :: "heap \<Rightarrow> ref \<Rightarrow> qval option" where
  "findArg h q = (let (h', r) = reqQuery h q in JSON_parse (queryStr (h' ! r)))"

subsection \<open>The query handed to the storage layer: lines 29 to 52\<close>

datatype error =
    TypeError string
  | SyntaxError
  | ErrorResponse string int
  | StorageError string

record mquery =
  conditions :: qval
  populated :: "string list"
  selected :: "string option"
  sorted_by :: "string option"
  skipped :: "int option"
  limited :: "int option"

definition find_query :: "qval \<Rightarrow> mquery" where
  "find_query f =
     \<lparr>conditions = f, populated = [], selected = None, sorted_by = None,
      skipped = None, limited = None\<rparr>"

definition populate :: "string \<Rightarrow> mquery \<Rightarrow> mquery" where
  "populate p m = m\<lparr>populated := populated m @ [p]\<rparr>"

text \<open>
  \<^verbatim>\<open>if (req.query.select) { fields = req.query.select.split(',').join(' '); ... }\<close>.
  A truthy value that is not a string has no \<^verbatim>\<open>split\<close>, and the call throws.
\<close>

definition selectFields :: "obj \<Rightarrow> mquery \<Rightarrow> error + mquery" where
  "selectFields req_query m =
     (if truthy (map_of req_query ''select'')
      then (case map_of req_query ''select'' of
              Some (QStr s) \<Rightarrow> Inr (m\<lparr>selected := Some (join '' '' (split CHR '','' s))\<rparr>)
            | _ \<Rightarrow> Inl (TypeError ''req.query.select.split is not a function''))
      else Inr m)"

text \<open>
  \<^verbatim>\<open>if (req.query.sort) { SortBy = req.query.sort.split(',').join(' '); query.sort(SortBy) }\<close>
  \<^verbatim>\<open>else { query.sort('-createdAt') }\<close>.
\<close>

definition sortFields :: "obj \<Rightarrow> mquery \<Rightarrow> error + mquery" where
  "sortFields req_query m =
     (if truthy (map_of req_query ''sort'')
      then (case map_of req_query ''sort'' of
              Some (QStr s) \<Rightarrow> Inr (m\<lparr>sorted_by := Some (join '' '' (split CHR '','' s))\<rparr>)
            | _ \<Rightarrow> Inl (TypeError ''req.query.sort.split is not a function''))
      else Inr (m\<lparr>sorted_by := Some ''-createdAt''\<rparr>))"

definition page :: "obj \<Rightarrow> int" where
  "page req_query = orDefault (parseInt (argString (map_of req_query ''page''))) 1"

definition limit :: "obj \<Rightarrow> int" where
  "limit req_query = orDefault (parseInt (argString (map_of req_query ''limit''))) 25"

definition startIndex :: "obj \<Rightarrow> int" where
  "startIndex req_query = (page req_query - 1) * limit req_query"

definition endIndex :: "obj \<Rightarrow> int" where
  "endIndex req_query = page req_query * limit req_query"

text \<open>The query as it is awaited, from the parsed filter \<open>f\<close>.\<close>

definition listQuery :: "obj \<Rightarrow> qval \<Rightarrow> error + mquery" where
  "listQuery req_query f =
     (case selectFields req_query (populate ''courses'' (find_query f)) of
        Inl e \<Rightarrow> Inl e
      | Inr m1 \<Rightarrow>
          (case sortFields req_query m1 of
             Inl e \<Rightarrow> Inl e
           | Inr m2 \<Rightarrow>
               Inr (m2\<lparr>skipped := Some (startIndex req_query),
                       limited := Some (limit req_query)\<rparr>)))"

subsection \<open>The pagination result: lines 54 to 69\<close>

record link =
  link_page :: int
  link_limit :: int

record pagination =
  next_link :: "link option"
  prev_link :: "link option"

definition paginationResult :: "obj \<Rightarrow> int \<Rightarrow> pagination" where
  "paginationResult req_query total_docs =
     \<lparr>next_link =
        (if endIndex req_query < total_docs
         then Some \<lparr>link_page = page req_query + 1, link_limit = limit req_query\<rparr>
         else None),
      prev_link =
        (if startIndex req_query > 0
         then Some \<lparr>link_page = page req_query - 1, link_limit = limit req_query\<rparr>
         else None)\<rparr>"

subsection \<open>The storage layer and the response\<close>

text \<open>
  The model \<^verbatim>\<open>Bootcamp\<close> is defined in another module. It is taken as the collection
  of stored documents and the function that runs a query on it; \<^verbatim>\<open>countDocuments()\<close>,
  called without a filter, counts the collection.
\<close>

record 'd model =
  documents :: "'d list"
  exec :: "mquery \<Rightarrow> error + 'd list"

definition countDocuments :: "'d model \<Rightarrow> int" where
  "countDocuments Bootcamp = int (length (documents Bootcamp))"

record 'd response =
  success :: bool
  count :: nat
  pagination :: pagination
  data :: "'d list"

text \<open>
  The handler. \<open>handlerLength\<close> is \<^verbatim>\<open>this.getBootcamps.length\<close>: inside the arrow
  function \<^verbatim>\<open>this\<close> is the module's export object, and \<^verbatim>\<open>getBootcamps\<close> is the
  function that the wrapper \<^verbatim>\<open>asyncHandler\<close> returned, whose number of declared
  parameters is fixed by the wrapper (which is defined in another module). A thrown error
  reaches \<^verbatim>\<open>next\<close> through the wrapper and is the \<open>Inl\<close> result.
\<close>

definition getBootcamps :: "nat \<Rightarrow> 'd model \<Rightarrow> heap \<Rightarrow> ref \<Rightarrow> heap \<times> (error + 'd response)" where
  "getBootcamps handlerLength Bootcamp h q =
     (let (h', r) = reqQuery h q;
          parsed = JSON_parse (queryStr (h' ! r));
          req_query = h' ! q
      in (h',
          case parsed of
            None \<Rightarrow> Inl SyntaxError
          | Some f \<Rightarrow>
              (case listQuery req_query f of
                 Inl e \<Rightarrow> Inl e
               | Inr query \<Rightarrow>
                   (let result = paginationResult req_query (countDocuments Bootcamp)
                    in case exec Bootcamp query of
                         Inl e \<Rightarrow> Inl e
                       | Inr bootcamps \<Rightarrow>
                           Inr \<lparr>success = True, count = handlerLength,
                                pagination = result, data = bootcamps\<rparr>))))"

section \<open>The handler bootcampPhotoUpload\<close>

record bootcamp =
  doc_id :: string

record uploaded_file =
  name :: string
  mimetype :: string
  size_bytes :: nat

record upload_request =
  params_id :: string
  files :: "(string \<Rightarrow> uploaded_file option) option"

record env =
  MAX_FILE_UPLOAD :: "string option"
  FILE_UPLOAD_PATH :: "string option"

text \<open>
  What the handler calls outside the controller: the two storage operations, the upload's
  \<^verbatim>\<open>mv\<close> (its answer is the error passed to the callback), the conversion of a string
  to a number (rounded down, which loses nothing against an integer size; \<open>None\<close> is
  \<^verbatim>\<open>NaN\<close>), and \<^verbatim>\<open>path.parse(...).ext\<close>.
\<close>

record world =
  findById :: "string \<Rightarrow> error + bootcamp option"
  findByIdAndUpdate :: "string \<Rightarrow> string \<Rightarrow> error option"
  mv :: "string \<Rightarrow> error option"
  toNumber :: "string \<Rightarrow> int option"
  ext :: "string \<Rightarrow> string"

datatype effect = Mv string | UpdatePhoto string string

datatype outcome = Next error | Responded int string | Unanswered error

text \<open>A variable of the environment inside a template string.\<close>

definition envText :: "string option \<Rightarrow> string" where
  "envText v = (case v of None \<Rightarrow> ''undefined'' | Some s \<Rightarrow> s)"

text \<open>\<^verbatim>\<open>file.size > process.env.MAX_FILE_UPLOAD\<close>: false when the variable is no number.\<close>

definition exceeds :: "world \<Rightarrow> nat \<Rightarrow> string option \<Rightarrow> bool" where
  "exceeds w sz v =
     (case v of
        None \<Rightarrow> False
      | Some s \<Rightarrow> (case toNumber w s of None \<Rightarrow> False | Some m \<Rightarrow> m < int sz))"

text \<open>
  The result is what the handler answers and the calls it made that write: \<^verbatim>\<open>file.mv\<close>
  with its target path and \<^verbatim>\<open>findByIdAndUpdate\<close> with the id and the photo name.
\<close>

definition bootcampPhotoUpload :: "world \<Rightarrow> env \<Rightarrow> upload_request \<Rightarrow> outcome \<times> effect list" where
  "bootcampPhotoUpload w e req =
     (case findById w (params_id req) of
        Inl err \<Rightarrow> (Next err, [])
      | Inr None \<Rightarrow>
          (Next (ErrorResponse (''Bootcamp not found with id of '' @ params_id req) 404), [])
      | Inr (Some bootcamp) \<Rightarrow>
          (case files req of
             None \<Rightarrow> (Next (ErrorResponse ''Please upload a file'' 400), [])
           | Some fs \<Rightarrow>
               (case fs ''file'' of
                  None \<Rightarrow>
                    (Next (TypeError ''Cannot read properties of undefined (reading mimetype)''), [])
                | Some file \<Rightarrow>
                    if \<not> prefix ''image'' (mimetype file)
                    then (Next (ErrorResponse ''Please upload an image file'' 400), [])
                    else if exceeds w (size_bytes file) (MAX_FILE_UPLOAD e)
                    then (Next (ErrorResponse
                                 (''Please upload an image less than '' @ envText (MAX_FILE_UPLOAD e))
                                 400), [])
                    else
                      (let file_name = ''photo_'' @ doc_id bootcamp @ ext w (name file);
                           target = envText (FILE_UPLOAD_PATH e) @ ''/'' @ file_name
                       in case mv w target of
                            Some err \<Rightarrow>
                              (Next (ErrorResponse ''Problem with file upload'' 500), [Mv target])
                          | None \<Rightarrow>
                              (case findByIdAndUpdate w (params_id req) file_name of
                                 Some err \<Rightarrow>
                                   (Unanswered err,
                                    [Mv target, UpdatePhoto (params_id req) file_name])
                               | None \<Rightarrow>
                                   (Responded 200 file_name,
                                    [Mv target, UpdatePhoto (params_id req) file_name]))))))"

section \<open>Notions of the specification\<close>

text \<open>
  The specification describes the rewriting of the operators by words: every maximal run
  of word characters that is one of the operator tokens gets the prefix \<^verbatim>\<open>$\<close>, and
  nothing else changes. This is that description, to be compared with \<open>replaceOps\<close>.
\<close>

function rewriteWords :: "string \<Rightarrow> string" where
  "rewriteWords [] = []"
| "rewriteWords (c # cs) =
     (if isWordChar c
      then (let w = takeWhile isWordChar (c # cs)
            in (if w \<in> set operators then CHR ''$'' # w else w)
                 @ rewriteWords (dropWhile isWordChar (c # cs)))
      else c # rewriteWords cs)"
  by pat_completeness auto
termination
  by (relation "measure length") (auto simp: less_Suc_eq_le length_dropWhile_le)



section \<open>The strings that parseInt reads a number from\<close>

text \<open>
  This is not a notion of the specification but the condition the code decides by:
  \<open>parseInt\<close> returns a number exactly when, after leading white space and at most one
  sign, the string goes on with a decimal digit, whatever follows the digits. It holds
  of every numeric string, and also of \<^verbatim>\<open>"12abc"\<close> and \<^verbatim>\<open>" +7px"\<close>, which read as 12
  and 7.
\<close>

definition startsWithNumeral :: "string \<Rightarrow> bool" where
  "startsWithNumeral s =
     (case dropWhile isWhiteSpace s of
        [] \<Rightarrow> False
      | c # cs \<Rightarrow>
          if c = CHR ''+'' \<or> c = CHR ''-''
          then (case cs of [] \<Rightarrow> False | d # _ \<Rightarrow> isDigit d)
          else isDigit c)"

section \<open>Example inputs\<close>

text \<open>
  A collection of three documents whose executor returns two of them for the empty
  filter and none for any other filter.
\<close>

definition B0 :: "nat model" where
  "B0 = \<lparr>documents = [1, 2, 3],
         exec = (\<lambda>m. Inr (if conditions m = QObj [] then [1, 2] else []))\<rparr>"

text \<open>
  A world with one bootcamp \<^verbatim>\<open>b1\<close>, an environment with a limit of 1000000 bytes, and
  an upload under the field name \<^verbatim>\<open>file\<close>.
\<close>

definition w0 :: world where
  "w0 = \<lparr>findById = (\<lambda>i. Inr (if i = ''b1'' then Some \<lparr>doc_id = ''b1''\<rparr> else None)),
         findByIdAndUpdate = (\<lambda>i p. None),
         mv = (\<lambda>p. None),
         toNumber = (\<lambda>s. if s = ''1000000'' then Some 1000000 else None),
         ext = (\<lambda>n. ''.jpg'')\<rparr>"

definition e0 :: env where
  "e0 = \<lparr>MAX_FILE_UPLOAD = Some ''1000000'', FILE_UPLOAD_PATH = Some ''./public/uploads''\<rparr>"

definition photo :: "string \<Rightarrow> nat \<Rightarrow> string \<Rightarrow> uploaded_file option" where
  "photo mime sz field =
     (if field = ''file'' then Some \<lparr>name = ''me.jpg'', mimetype = mime, size_bytes = sz\<rparr> else None)"

section \<open>Pagination\<close>

lemmas pagination_eval =
  page_def limit_def argString_def parseInt_def orDefault_def
  isWhiteSpace_def isDigit_def digitValue_def





lemma no_digit_not_numeral: "\<forall>c\<in>set s. \<not> isDigit c \<Longrightarrow> \<not> startsWithNumeral s"
proof -
  assume a: "\<forall>c\<in>set s. \<not> isDigit c"
  have "set (dropWhile isWhiteSpace s) \<subseteq> set s"
    by (rule set_dropWhileD [THEN subsetI])
  with a have "\<forall>c\<in>set (dropWhile isWhiteSpace s). \<not> isDigit c"
    by blast
  then show ?thesis
    by (auto simp: startsWithNumeral_def split: list.splits)
qed


lemma pos_mult_iff: "0 < (l::int) \<Longrightarrow> (0 < (p - 1) * l) = (1 < p)"
  by (simp add: zero_less_mult_iff)







text \<open>
  Claim C2, as the code has it. The pagination result has \<^verbatim>\<open>next = {page: page + 1, limit}\<close>
  exactly when \<^verbatim>\<open>page * limit < total\<close> (strictly), and \<^verbatim>\<open>prev = {page: page - 1, limit}\<close>
  exactly when \<^verbatim>\<open>(page - 1) * limit > 0\<close>; for a positive limit that is exactly when
  \<^verbatim>\<open>page > 1\<close>.
\<close>

theorem pagination_links:
  "next_link (paginationResult q t) =
     (if page q * limit q < t
      then Some \<lparr>link_page = page q + 1, link_limit = limit q\<rparr> else None)
   \<and> prev_link (paginationResult q t) =
     (if 0 < (page q - 1) * limit q
      then Some \<lparr>link_page = page q - 1, link_limit = limit q\<rparr> else None)
   \<and> (0 < limit q \<longrightarrow> (prev_link (paginationResult q t) \<noteq> None) = (1 < page q))"
  by (simp add: paginationResult_def startIndex_def endIndex_def pos_mult_iff)

theorem pagination_links_witness:
  "0 < limit [(''page'', QStr ''1''), (''limit'', QStr ''25'')]
   \<and> next_link (paginationResult [(''page'', QStr ''1''), (''limit'', QStr ''25'')] 25) = None
   \<and> prev_link (paginationResult [(''page'', QStr ''1''), (''limit'', QStr ''25'')] 25) = None
   \<and> next_link (paginationResult [(''page'', QStr ''2''), (''limit'', QStr ''10'')] 25)
        = Some \<lparr>link_page = 3, link_limit = 10\<rparr>
   \<and> prev_link (paginationResult [(''page'', QStr ''2''), (''limit'', QStr ''10'')] 25)
        = Some \<lparr>link_page = 1, link_limit = 10\<rparr>"
  using pagination_links [of "[(''page'', QStr ''1''), (''limit'', QStr ''25'')]" 25]
    pagination_links [of "[(''page'', QStr ''2''), (''limit'', QStr ''10'')]" 25]
  by (simp add: pagination_eval)

text \<open>
  With \<^verbatim>\<open>page = "2"\<close> and \<^verbatim>\<open>limit = "-5"\<close> the page is greater than 1, the start index is
  \<open>-5\<close>, and there is no \<^verbatim>\<open>prev\<close>: the two sides of "prev is present iff page > 1" differ.
\<close>

theorem prev_iff_page_counterexample:
  "\<not> ((prev_link (paginationResult [(''page'', QStr ''2''), (''limit'', QStr ''-5'')] 0) \<noteq> None)
        = (1 < page [(''page'', QStr ''2''), (''limit'', QStr ''-5'')]))"
  by (simp add: paginationResult_def startIndex_def pagination_eval)

text \<open>
  Claim C3, as the code has it. A page or a limit that parses to a number other than zero,
  negative ones included, is used as it is, each on its own and whatever the other
  parameter is: the page and the limit are the parsed numbers, the start
  index is \<^verbatim>\<open>(page - 1) * limit\<close>, the end index is \<^verbatim>\<open>page * limit\<close>, and the query skips
  the start index and is limited to the limit. With a page above 1 and a negative limit,
  or a negative page and a positive limit, the skipped offset is negative. A value that parses to zero is replaced by the default.
\<close>

theorem nonzero_values_flow_through:
  "(\<forall>p. parseInt (argString (map_of q ''page'')) = Some p \<and> p \<noteq> 0 \<longrightarrow> page q = p)
   \<and> (parseInt (argString (map_of q ''page'')) = Some 0 \<longrightarrow> page q = 1)
   \<and> (\<forall>l. parseInt (argString (map_of q ''limit'')) = Some l \<and> l \<noteq> 0 \<longrightarrow> limit q = l)
   \<and> (parseInt (argString (map_of q ''limit'')) = Some 0 \<longrightarrow> limit q = 25)
   \<and> startIndex q = (page q - 1) * limit q
   \<and> endIndex q = page q * limit q
   \<and> (\<forall>m. listQuery q f = Inr m \<longrightarrow>
         skipped m = Some (startIndex q) \<and> limited m = Some (limit q))
   \<and> (1 < page q \<and> limit q < 0 \<longrightarrow> startIndex q < 0)
   \<and> (page q < 0 \<and> 0 < limit q \<longrightarrow> startIndex q < 0)"
proof -
  have "skipped m = Some (startIndex q) \<and> limited m = Some (limit q)"
    if "listQuery q f = Inr m" for m
    using that by (auto simp: listQuery_def split: sum.splits)
  then show ?thesis
    by (simp add: page_def limit_def orDefault_def startIndex_def endIndex_def
          mult_less_0_iff)
qed

theorem nonzero_values_flow_through_witness:
  "parseInt (argString (map_of [(''page'', QStr ''-2'')] ''page'')) = Some (- 2)
   \<and> page [(''page'', QStr ''-2'')] = - 2
   \<and> limit [(''page'', QStr ''-2'')] = 25
   \<and> startIndex [(''page'', QStr ''-2'')] = - 75
   \<and> parseInt (argString (map_of [(''page'', QStr ''2''), (''limit'', QStr ''-5'')] ''limit''))
        = Some (- 5)
   \<and> page [(''page'', QStr ''2''), (''limit'', QStr ''-5'')] = 2
   \<and> limit [(''page'', QStr ''2''), (''limit'', QStr ''-5'')] = - 5
   \<and> startIndex [(''page'', QStr ''2''), (''limit'', QStr ''-5'')] = - 5
   \<and> endIndex [(''page'', QStr ''2''), (''limit'', QStr ''-5'')] = - 10
   \<and> parseInt (argString (map_of [(''page'', QStr ''0''), (''limit'', QStr ''0'')] ''limit''))
        = Some 0
   \<and> page [(''page'', QStr ''0''), (''limit'', QStr ''0'')] = 1
   \<and> limit [(''page'', QStr ''0''), (''limit'', QStr ''0'')] = 25
   \<and> map_option skipped
        (case listQuery [(''page'', QStr ''2''), (''limit'', QStr ''-5'')] (QObj []) of
           Inl e \<Rightarrow> None | Inr m \<Rightarrow> Some m) = Some (Some (- 5))"
proof -
  let ?q = "[(''page'', QStr ''2''), (''limit'', QStr ''-5'')]"
  let ?n = "[(''page'', QStr ''-2'')]"
  let ?z = "[(''page'', QStr ''0''), (''limit'', QStr ''0'')]"
  have p: "parseInt (argString (map_of ?q ''page'')) = Some 2"
    and l: "parseInt (argString (map_of ?q ''limit'')) = Some (- 5)"
    and n: "parseInt (argString (map_of ?n ''page'')) = Some (- 2)"
    and nl: "parseInt (argString (map_of ?n ''limit'')) = None"
    and z: "parseInt (argString (map_of ?z ''page'')) = Some 0"
    and zl: "parseInt (argString (map_of ?z ''limit'')) = Some 0"
    by (simp_all add: pagination_eval)
  have nlim: "limit ?n = 25"
    using nl by (simp add: limit_def orDefault_def)
  have m: "listQuery ?q (QObj []) =
             Inr \<lparr>conditions = QObj [], populated = [''courses''], selected = None,
                  sorted_by = Some ''-createdAt'', skipped = Some (startIndex ?q),
                  limited = Some (limit ?q)\<rparr>"
    by (simp add: listQuery_def selectFields_def sortFields_def truthy_def populate_def
          find_query_def)
  from nonzero_values_flow_through [of ?q "QObj []"]
    nonzero_values_flow_through [of ?n "QObj []"]
    nonzero_values_flow_through [of ?z "QObj []"]
    p l n z zl nlim m
  show ?thesis
    by simp
qed

text \<open>
  With \<^verbatim>\<open>page = "0"\<close> the parsed value is 0, yet the page is 1 and the start index is 0,
  not \<^verbatim>\<open>(0 - 1) * limit\<close>: the zero does not flow through.
\<close>

theorem page_zero_counterexample:
  "parseInt (argString (map_of [(''page'', QStr ''0'')] ''page'')) = Some 0
   \<and> page [(''page'', QStr ''0'')] \<noteq> 0
   \<and> startIndex [(''page'', QStr ''0'')] \<noteq> (0 - 1) * limit [(''page'', QStr ''0'')]"
  by (simp add: startIndex_def pagination_eval)

section \<open>The filter\<close>

subsection \<open>The copy of the parameters\<close>

lemma filter_reserved:
  "filter (\<lambda>(k', v). k' \<noteq> ''limit'')
     (filter (\<lambda>(k', v). k' \<noteq> ''page'')
        (filter (\<lambda>(k', v). k' \<noteq> ''sort'')
           (filter (\<lambda>(k', v). k' \<noteq> ''select'') xs)))
   = filter (\<lambda>(k, v). k \<notin> set removeFields) xs"
  by (induction xs) (auto simp: removeFields_def)

lemma reqQuery_eq:
  "reqQuery h q = (h @ [filter (\<lambda>(k, v). k \<notin> set removeFields) (h ! q)], length h)"
proof -
  have "foldl (\<lambda>h' param. deleteProp h' (length h) param) (h @ [h ! q]) removeFields
          = h @ [filter (\<lambda>(k, v). k \<notin> set removeFields) (h ! q)]"
    unfolding filter_reserved [symmetric]
    by (simp add: removeFields_def deleteProp_def)
  then show ?thesis
    by (simp add: reqQuery_def spread_def)
qed

lemma findArg_eq:
  "findArg h q = JSON_parse (queryStr (filter (\<lambda>(k, v). k \<notin> set removeFields) (h ! q)))"
  by (simp add: findArg_def reqQuery_eq)

lemma empty_filter: "JSON_parse (queryStr []) = Some (QObj [])"
  by code_simp



subsection \<open>The replacement rewrites whole words\<close>

lemma operators_word:
  assumes "t \<in> set operators"
  shows "t \<noteq> []" and "\<forall>c\<in>set t. isWordChar c"
  using assms by (auto simp: operators_def isWordChar_def)

lemma find_eq: "find (\<lambda>t. t = w) xs = (if w \<in> set xs then Some w else None)"
  by (induction xs) auto

lemma not_wordAfter_dropWhile: "\<not> wordAfter (dropWhile isWordChar s)"
  by (induction s) (auto simp: wordAfter_def)

lemma whole_word_iff:
  assumes "t \<noteq> []" and "\<forall>c\<in>set t. isWordChar c"
  shows "(prefix t s \<and> wordBoundary (Some (last t)) (drop (length t) s))
          \<longleftrightarrow> t = takeWhile isWordChar s"
proof
  assume h: "prefix t s \<and> wordBoundary (Some (last t)) (drop (length t) s)"
  then obtain r where s: "s = t @ r" by (auto simp: prefix_def)
  from assms have "isWordChar (last t)" by simp
  with h s have "\<not> wordAfter r" by (simp add: wordBoundary_def wordBefore_def)
  then have "takeWhile isWordChar r = []"
    by (cases r) (auto simp: wordAfter_def)
  with assms s show "t = takeWhile isWordChar s"
    by (simp add: takeWhile_append2)
next
  assume t: "t = takeWhile isWordChar s"
  have "prefix (takeWhile isWordChar s) s"
    by (metis prefixI takeWhile_dropWhile_id)
  moreover have "drop (length (takeWhile isWordChar s)) s = dropWhile isWordChar s"
    by (simp add: dropWhile_eq_drop)
  moreover from assms have "isWordChar (last t)" by simp
  ultimately show "prefix t s \<and> wordBoundary (Some (last t)) (drop (length t) s)"
    using t not_wordAfter_dropWhile [of s] by (simp add: wordBoundary_def wordBefore_def)
qed

lemma find_SomeD: "find P xs = Some x \<Longrightarrow> x \<in> set xs \<and> P x"
  by (induction xs) (auto split: if_splits)

lemma matchAt_SomeD: "matchAt prev rest = Some t \<Longrightarrow> t \<in> set operators \<and> prefix t rest"
  unfolding matchAt_def by (auto split: if_splits dest: find_SomeD)

lemma matchAt_nonword:
  assumes "\<not> isWordChar c"
  shows "matchAt prev (c # cs) = None"
proof (cases "matchAt prev (c # cs)")
  case None
  then show ?thesis .
next
  case (Some t)
  then have t: "t \<in> set operators" and p: "prefix t (c # cs)"
    by (auto dest: matchAt_SomeD)
  from t have "t \<noteq> []" and w: "\<forall>x\<in>set t. isWordChar x"
    by (rule operators_word)+
  with p have "c \<in> set t"
    by (cases t) (auto simp: prefix_def)
  with w assms show ?thesis by blast
qed

lemma matchAt_inside: "wordBefore prev \<Longrightarrow> isWordChar c \<Longrightarrow> matchAt prev (c # cs) = None"
  by (simp add: matchAt_def wordBoundary_def wordAfter_def)

lemma matchAt_word_start:
  assumes "\<not> wordBefore prev" and "isWordChar c"
  shows "matchAt prev (c # cs) =
           (if takeWhile isWordChar (c # cs) \<in> set operators
            then Some (takeWhile isWordChar (c # cs)) else None)"
proof -
  have b: "wordBoundary prev (c # cs)"
    using assms by (simp add: wordBoundary_def wordAfter_def)
  have "find (\<lambda>t. prefix t (c # cs) \<and> wordBoundary (Some (last t)) (drop (length t) (c # cs))) operators
          = find (\<lambda>t. t = takeWhile isWordChar (c # cs)) operators"
    by (rule find_cong [OF refl]) (use operators_word whole_word_iff in blast)
  with b show ?thesis by (simp only: matchAt_def find_eq if_True)
qed

lemma replaceFrom_inside:
  "isWordChar p \<Longrightarrow>
     replaceFrom (Some p) s =
       takeWhile isWordChar s
         @ replaceFrom (Some (last (p # takeWhile isWordChar s))) (dropWhile isWordChar s)"
proof (induction s arbitrary: p)
  case Nil
  then show ?case by simp
next
  case (Cons c cs)
  show ?case
  proof (cases "isWordChar c")
    case True
    with Cons.prems have "matchAt (Some p) (c # cs) = None"
      by (simp add: matchAt_inside wordBefore_def)
    with True Cons.IH [of c] show ?thesis by simp
  next
    case False
    then show ?thesis by simp
  qed
qed

lemma replaceFrom_rewriteWords:
  "\<not> wordBefore prev \<or> \<not> wordAfter s \<Longrightarrow> replaceFrom prev s = rewriteWords s"
proof (induction s arbitrary: prev rule: rewriteWords.induct)
  case 1
  then show ?case by simp
next
  case (2 c cs)
  let ?w = "takeWhile isWordChar (c # cs)"
  let ?r = "dropWhile isWordChar (c # cs)"
  show ?case
  proof (cases "isWordChar c")
    case False
    have "replaceFrom (Some c) cs = rewriteWords cs"
      using False by (intro "2.IH"(2)) (simp_all add: wordBefore_def)
    with False show ?thesis by (simp add: matchAt_nonword)
  next
    case True
    with "2.prems" have nb: "\<not> wordBefore prev" by (simp add: wordAfter_def)
    have tail: "replaceFrom q ?r = rewriteWords ?r" for q
      using True not_wordAfter_dropWhile [of "c # cs"] by (intro "2.IH"(1)) simp_all
    show ?thesis
    proof (cases "?w \<in> set operators")
      case op: True
      have "drop (length ?w) (c # cs) = ?r"
        by (simp only: dropWhile_eq_drop)
      moreover from op have "matchAt prev (c # cs) = Some ?w"
        by (simp only: matchAt_word_start [OF nb True] if_True)
      ultimately have "replaceFrom prev (c # cs) = CHR ''$'' # ?w @ replaceFrom (Some (last ?w)) ?r"
        by (simp only: replaceFrom.simps option.case)
      with op True tail show ?thesis by (simp add: Let_def)
    next
      case nop: False
      then have "matchAt prev (c # cs) = None"
        by (simp only: matchAt_word_start [OF nb True] if_False)
      then have "replaceFrom prev (c # cs) = c # replaceFrom (Some c) cs"
        by (simp only: replaceFrom.simps option.case)
      also have "\<dots> = ?w @ replaceFrom (Some (last (c # takeWhile isWordChar cs))) ?r"
        using True by (simp add: replaceFrom_inside [of c cs])
      finally show ?thesis using nop True tail by (simp add: Let_def)
    qed
  qed
qed

lemma replaceOps_rewriteWords: "replaceOps s = rewriteWords s"
  by (simp add: replaceOps_def replaceFrom_rewriteWords wordBefore_def)


subsection \<open>Claims about the filter\<close>

text \<open>
  Claim C1. The text handed to \<^verbatim>\<open>JSON.parse\<close> is the serialized object of the parameters
  without the reserved keys, in which every whole word that is one of \<^verbatim>\<open>gt\<close>, \<^verbatim>\<open>gte\<close>,
  \<^verbatim>\<open>lt\<close>, \<^verbatim>\<open>lte\<close>, \<^verbatim>\<open>in\<close> (in this spelling) has got the prefix \<^verbatim>\<open>$\<close>. The replacement
  runs over the whole text: in \<^verbatim>\<open>{name: "GT in inn"}\<close> the word \<^verbatim>\<open>in\<close> inside the value is
  rewritten (and neither \<^verbatim>\<open>GT\<close> nor \<^verbatim>\<open>inn\<close>), as the operator keys of
  \<^verbatim>\<open>{price: {gt: "10", lte: "20"}}\<close> are.
\<close>

theorem operators_rewritten:
  "queryStr (filter (\<lambda>(k, v). k \<notin> set removeFields) (h ! q))
     = rewriteWords (JSON_stringify (QObj (filter (\<lambda>(k, v). k \<notin> set removeFields) (h ! q))))
   \<and> findArg h q = JSON_parse (queryStr (filter (\<lambda>(k, v). k \<notin> set removeFields) (h ! q)))
   \<and> findArg [[(''name'', QStr ''GT in inn''), (''sort'', QStr ''name'')]] 0
        = Some (QObj [(''name'', QStr ''GT $in inn'')])
   \<and> findArg [[(''price'', QObj [(''gt'', QStr ''10''), (''lte'', QStr ''20'')])]] 0
        = Some (QObj [(''price'', QObj [(''$gt'', QStr ''10''), (''$lte'', QStr ''20'')])])"
proof (intro conjI)
  show "findArg [[(''name'', QStr ''GT in inn''), (''sort'', QStr ''name'')]] 0
        = Some (QObj [(''name'', QStr ''GT $in inn'')])"
    by code_simp
  show "findArg [[(''price'', QObj [(''gt'', QStr ''10''), (''lte'', QStr ''20'')])]] 0
        = Some (QObj [(''price'', QObj [(''$gt'', QStr ''10''), (''$lte'', QStr ''20'')])])"
    by code_simp
qed (simp_all add: queryStr_def replaceOps_rewriteWords findArg_eq)

text \<open>
  Claim C8. When every key of the request's parameters is one of the reserved keys
  \<^verbatim>\<open>select\<close>, \<^verbatim>\<open>sort\<close>, \<^verbatim>\<open>page\<close>, \<^verbatim>\<open>limit\<close>, the filter handed to the storage layer is
  the empty object.
\<close>

theorem reserved_only_empty_filter:
  assumes "q < length h" and "\<forall>k \<in> fst ` set (h ! q). k \<in> set removeFields"
  shows "findArg h q = Some (QObj [])"
proof -
  from assms(2) have "filter (\<lambda>(k, v). k \<notin> set removeFields) (h ! q) = []"
    by (auto simp: filter_empty_conv)
  then show ?thesis
    by (simp add: findArg_eq empty_filter)
qed

theorem reserved_only_empty_filter_witness:
  "findArg [[(''page'', QStr ''2''), (''select'', QStr ''name,email'')]] 0 = Some (QObj [])"
  using reserved_only_empty_filter
          [of 0 "[[(''page'', QStr ''2''), (''select'', QStr ''name,email'')]]"]
  by (simp add: removeFields_def)

lemma getBootcamps_eq:
  assumes "q < length h"
  shows "getBootcamps n B h q =
     (h @ [filter (\<lambda>(k, v). k \<notin> set removeFields) (h ! q)],
      case findArg h q of
        None \<Rightarrow> Inl SyntaxError
      | Some f \<Rightarrow>
          (case listQuery (h ! q) f of
             Inl e \<Rightarrow> Inl e
           | Inr query \<Rightarrow>
               (case exec B query of
                  Inl e \<Rightarrow> Inl e
                | Inr bootcamps \<Rightarrow>
                    Inr \<lparr>success = True, count = n,
                         pagination = paginationResult (h ! q) (countDocuments B),
                         data = bootcamps\<rparr>)))"
  using assms
  by (simp add: getBootcamps_def reqQuery_eq findArg_eq nth_append Let_def
        split: option.split sum.split)

text \<open>
  Claim C9. The filter is built from a copy: the object \<^verbatim>\<open>req.query\<close> refers to is the
  same after the removal of the reserved keys, the copy lives at another address, no
  object that existed before has changed, and the heap the handler leaves behind still
  holds \<^verbatim>\<open>req.query\<close> as it was.
\<close>

theorem req_query_unchanged:
  assumes "q < length h"
  shows "fst (reqQuery h q) ! q = h ! q
         \<and> snd (reqQuery h q) \<noteq> q
         \<and> (\<forall>a < length h. fst (reqQuery h q) ! a = h ! a)
         \<and> fst (getBootcamps n B h q) ! q = h ! q"
  using assms by (simp add: getBootcamps_eq reqQuery_eq nth_append)

theorem req_query_unchanged_witness:
  "fst (reqQuery [[(''page'', QStr ''2''), (''name'', QStr ''x'')]] 0) ! 0
     = [(''page'', QStr ''2''), (''name'', QStr ''x'')]
   \<and> fst (reqQuery [[(''page'', QStr ''2''), (''name'', QStr ''x'')]] 0) ! 1
     = [(''name'', QStr ''x'')]
   \<and> snd (reqQuery [[(''page'', QStr ''2''), (''name'', QStr ''x'')]] 0) = 1"
  using req_query_unchanged [of 0 "[[(''page'', QStr ''2''), (''name'', QStr ''x'')]]"]
  by (simp add: reqQuery_eq removeFields_def)

section \<open>The response\<close>

lemma paginationResult_cong:
  assumes "map_of q1 ''page'' = map_of q2 ''page''"
    and "map_of q1 ''limit'' = map_of q2 ''limit''"
  shows "paginationResult q1 t = paginationResult q2 t"
  unfolding paginationResult_def startIndex_def endIndex_def page_def limit_def
  by (simp only: assms)

lemma getBootcamps_Inr:
  assumes "q < length h" and "getBootcamps n B h q = (h', Inr r)"
  shows "\<exists>f m. findArg h q = Some f \<and> listQuery (h ! q) f = Inr m
           \<and> exec B m = Inr (data r)
           \<and> r = \<lparr>success = True, count = n,
                   pagination = paginationResult (h ! q) (countDocuments B),
                   data = data r\<rparr>"
proof -
  from assms have e: "(case findArg h q of
        None \<Rightarrow> Inl SyntaxError
      | Some f \<Rightarrow>
          (case listQuery (h ! q) f of
             Inl e \<Rightarrow> Inl e
           | Inr query \<Rightarrow>
               (case exec B query of
                  Inl e \<Rightarrow> Inl e
                | Inr bootcamps \<Rightarrow>
                    Inr \<lparr>success = True, count = n,
                         pagination = paginationResult (h ! q) (countDocuments B),
                         data = bootcamps\<rparr>))) = Inr r"
    by (simp only: getBootcamps_eq prod.inject)
  then obtain f where f: "findArg h q = Some f"
    by (cases "findArg h q") simp_all
  with e obtain m where m: "listQuery (h ! q) f = Inr m"
    by (cases "listQuery (h ! q) f") simp_all
  with e f obtain bs where bs: "exec B m = Inr bs"
    by (cases "exec B m") simp_all
  with e f m have "r = \<lparr>success = True, count = n,
                   pagination = paginationResult (h ! q) (countDocuments B),
                   data = bs\<rparr>"
    by simp
  with f m bs show ?thesis by simp
qed


lemma getBootcamps_pagination:
  assumes "q < length h" and "getBootcamps n B h q = (h', Inr r)"
  shows "pagination r = paginationResult (h ! q) (int (length (documents B)))"
proof -
  from getBootcamps_Inr [OF assms]
  have "r = \<lparr>success = True, count = n,
             pagination = paginationResult (h ! q) (countDocuments B), data = data r\<rparr>"
    by blast
  then have "pagination r = paginationResult (h ! q) (countDocuments B)"
    by (metis response.select_convs(3))
  then show ?thesis by (simp add: countDocuments_def)
qed

lemma getBootcamps_count:
  assumes "q < length h" and "getBootcamps n B h q = (h', Inr r)"
  shows "count r = n"
proof -
  from getBootcamps_Inr [OF assms]
  have "r = \<lparr>success = True, count = n,
             pagination = paginationResult (h ! q) (countDocuments B), data = data r\<rparr>"
    by blast
  then show ?thesis
    by (metis response.select_convs(2))
qed

lemma answer_all: "getBootcamps 3 B0 [[(''limit'', QStr ''2'')]] 0 =
   ([[(''limit'', QStr ''2'')], []],
    Inr \<lparr>success = True, count = 3,
         pagination = \<lparr>next_link = Some \<lparr>link_page = 2, link_limit = 2\<rparr>, prev_link = None\<rparr>,
         data = [1, 2]\<rparr>)"
  by code_simp

lemma answer_none: "getBootcamps 3 B0 [[(''limit'', QStr ''2''), (''name'', QStr ''none'')]] 0 =
   ([[(''limit'', QStr ''2''), (''name'', QStr ''none'')], [(''name'', QStr ''none'')]],
    Inr \<lparr>success = True, count = 3,
         pagination = \<lparr>next_link = Some \<lparr>link_page = 2, link_limit = 2\<rparr>, prev_link = None\<rparr>,
         data = []\<rparr>)"
  by code_simp

text \<open>
  Claim C5. The pagination of a response is computed against the number of documents of
  the whole collection, whatever the filter is: two requests that agree on the \<^verbatim>\<open>page\<close>
  and \<^verbatim>\<open>limit\<close> parameters and are answered over the same collection carry the same
  pagination. In the witness the second request filters every document out, its data is
  empty, and it still announces a next page.
\<close>

theorem total_is_collection_count:
  assumes "q1 < length h1" and "q2 < length h2"
    and "map_of (h1 ! q1) ''page'' = map_of (h2 ! q2) ''page''"
    and "map_of (h1 ! q1) ''limit'' = map_of (h2 ! q2) ''limit''"
    and "getBootcamps n B h1 q1 = (h1', Inr r1)"
    and "getBootcamps n B h2 q2 = (h2', Inr r2)"
  shows "pagination r1 = paginationResult (h1 ! q1) (int (length (documents B)))
         \<and> pagination r2 = pagination r1"
proof -
  have "pagination r1 = paginationResult (h1 ! q1) (int (length (documents B)))"
    using assms(1) assms(5) by (rule getBootcamps_pagination)
  moreover have "pagination r2 = paginationResult (h2 ! q2) (int (length (documents B)))"
    using assms(2) assms(6) by (rule getBootcamps_pagination)
  moreover have "paginationResult (h1 ! q1) (int (length (documents B)))
                   = paginationResult (h2 ! q2) (int (length (documents B)))"
    using assms(3) assms(4) by (rule paginationResult_cong)
  ultimately show ?thesis by simp
qed

theorem total_is_collection_count_witness:
  "pagination \<lparr>success = True, count = 3,
         pagination = \<lparr>next_link = Some \<lparr>link_page = 2, link_limit = 2\<rparr>, prev_link = None\<rparr>,
         data = [1 :: nat, 2]\<rparr>
     = paginationResult [(''limit'', QStr ''2'')] (int (length (documents B0)))
   \<and> paginationResult [(''limit'', QStr ''2'')] 3
     = \<lparr>next_link = Some \<lparr>link_page = 2, link_limit = 2\<rparr>, prev_link = None\<rparr>
   \<and> snd (getBootcamps 3 B0 [[(''limit'', QStr ''2''), (''name'', QStr ''none'')]] 0)
     = Inr \<lparr>success = True, count = 3,
         pagination = \<lparr>next_link = Some \<lparr>link_page = 2, link_limit = 2\<rparr>, prev_link = None\<rparr>,
         data = []\<rparr>"
  using total_is_collection_count
          [of 0 "[[(''limit'', QStr ''2'')]]" 0 "[[(''limit'', QStr ''2''), (''name'', QStr ''none'')]]",
           OF _ _ _ _ answer_all answer_none]
        answer_none
  by (simp add: B0_def)

text \<open>
  Claim C6. The \<^verbatim>\<open>count\<close> of every response is \<^verbatim>\<open>this.getBootcamps.length\<close>, not the
  number of returned documents: whatever that length is, some request over some
  collection is answered with a \<^verbatim>\<open>count\<close> that differs from the length of \<^verbatim>\<open>data\<close>.
\<close>

theorem count_is_handler_length:
  "(\<forall>h' r. q < length h \<and> getBootcamps n B h q = (h', Inr r) \<longrightarrow> count r = n)
   \<and> (\<exists>(B' :: nat model) h0 q0 h0' r0.
         q0 < length h0 \<and> getBootcamps n B' h0 q0 = (h0', Inr r0)
         \<and> count r0 \<noteq> length (data r0))"
proof (intro conjI allI impI)
  fix h' r
  assume "q < length h \<and> getBootcamps n B h q = (h', Inr r)"
  then show "count r = n"
    by (blast intro: getBootcamps_count)
next
  let ?B = "\<lparr>documents = [], exec = (\<lambda>m. Inr (replicate (Suc n) (0 :: nat)))\<rparr>"
  let ?r = "\<lparr>success = True, count = n,
             pagination = paginationResult [] (countDocuments ?B),
             data = replicate (Suc n) (0 :: nat)\<rparr>"
  have "listQuery [] (QObj []) =
          Inr \<lparr>conditions = QObj [], populated = [''courses''], selected = None,
               sorted_by = Some ''-createdAt'', skipped = Some (startIndex []),
               limited = Some (limit [])\<rparr>"
    by (simp add: listQuery_def selectFields_def sortFields_def truthy_def populate_def
          find_query_def)
  then have "getBootcamps n ?B [[]] 0 = ([[], []], Inr ?r)"
    by (simp add: getBootcamps_eq findArg_eq empty_filter)
  moreover have "count ?r \<noteq> length (data ?r)"
    by simp
  ultimately show "\<exists>(B' :: nat model) h0 q0 h0' r0.
         q0 < length h0 \<and> getBootcamps n B' h0 q0 = (h0', Inr r0)
         \<and> count r0 \<noteq> length (data r0)"
    by (intro exI [of _ ?B] exI [of _ "[[]]"] exI [of _ 0] exI [of _ "[[], []]"] exI [of _ ?r])
       simp
qed

theorem count_is_handler_length_witness:
  "getBootcamps 3 B0 [[(''limit'', QStr ''2'')]] 0 =
     ([[(''limit'', QStr ''2'')], []],
      Inr \<lparr>success = True, count = 3,
           pagination = \<lparr>next_link = Some \<lparr>link_page = 2, link_limit = 2\<rparr>, prev_link = None\<rparr>,
           data = [1, 2]\<rparr>)
   \<and> count \<lparr>success = True, count = 3,
           pagination = \<lparr>next_link = Some \<lparr>link_page = 2, link_limit = 2\<rparr>, prev_link = None\<rparr>,
           data = [1 :: nat, 2]\<rparr> = 3
   \<and> length (data \<lparr>success = True, count = 3,
           pagination = \<lparr>next_link = Some \<lparr>link_page = 2, link_limit = 2\<rparr>, prev_link = None\<rparr>,
           data = [1 :: nat, 2]\<rparr>) = 2"
  using count_is_handler_length [of 0 "[[(''limit'', QStr ''2'')]]" 3 B0] answer_all
  by simp

section \<open>Sorting\<close>

lemma splitWhere_not_Nil: "splitWhere P s \<noteq> []"
  by (induction s) (auto split: list.splits)

lemma join_Cons_Cons: "join sep ((c # x) # xs) = c # join sep (x # xs)"
  by (cases xs) simp_all

lemma join_split_map:
  "join '' '' (split CHR '','' s) = map (\<lambda>c. if c = CHR '','' then CHR '' '' else c) s"
proof (induction s)
  case Nil
  then show ?case by (simp add: split_def)
next
  case (Cons c cs)
  obtain y ys where s: "splitWhere (\<lambda>c. c = CHR '','') cs = y # ys"
    using splitWhere_not_Nil [of "\<lambda>c. c = CHR '',''" cs]
    by (cases "splitWhere (\<lambda>c. c = CHR '','') cs") auto
  with Cons show ?case
    by (simp add: split_def join_Cons_Cons)
qed

lemma splitWhere_map:
  "splitWhere P (map f s) = map (map f) (splitWhere (\<lambda>c. P (f c)) s)"
  by (induction s) (auto split: list.splits)

lemma splitWhere_pieces_free: "x \<in> set (splitWhere Q s) \<Longrightarrow> \<forall>c\<in>set x. \<not> Q c"
proof (induction s arbitrary: x)
  case Nil
  then show ?case by simp
next
  case (Cons c cs)
  show ?case
  proof (cases "Q c")
    case True
    with Cons show ?thesis by auto
  next
    case False
    obtain y ys where s: "splitWhere Q cs = y # ys"
      using splitWhere_not_Nil [of Q cs] by (cases "splitWhere Q cs") auto
    with False Cons.prems have "x = c # y \<or> x \<in> set ys" by auto
    moreover have "\<forall>c\<in>set y. \<not> Q c" using Cons.IH [of y] s by simp
    moreover have "x \<in> set ys \<Longrightarrow> \<forall>c\<in>set x. \<not> Q c" using Cons.IH [of x] s by simp
    ultimately show ?thesis using False by auto
  qed
qed

lemma splitWhere_cong: "(\<forall>c\<in>set s. P c = Q c) \<Longrightarrow> splitWhere P s = splitWhere Q s"
  by (induction s) auto

text \<open>
  When the parameter has no space, splitting the joined string at the spaces gives the
  comma-separated tokens back, in their order.
\<close>

lemma tokens_recovered:
  assumes "\<forall>c\<in>set s. c \<noteq> CHR '' ''"
  shows "split CHR '' '' (join '' '' (split CHR '','' s)) = split CHR '','' s"
proof -
  let ?f = "\<lambda>c. if c = CHR '','' then CHR '' '' else c"
  have "map ?f x = x" if "x \<in> set (splitWhere (\<lambda>c. c = CHR '','') s)" for x
  proof -
    from that have "\<forall>c\<in>set x. \<not> c = CHR '',''" by (rule splitWhere_pieces_free)
    then show ?thesis by (simp add: map_idI)
  qed
  then have pieces: "map (map ?f) (splitWhere (\<lambda>c. c = CHR '','') s)
                       = splitWhere (\<lambda>c. c = CHR '','') s"
    by (simp add: map_idI)
  have "split CHR '' '' (join '' '' (split CHR '','' s)) = split CHR '' '' (map ?f s)"
    by (simp only: join_split_map)
  also have "\<dots> = splitWhere (\<lambda>c. c = CHR '' '') (map ?f s)"
    by (simp only: split_def)
  also have "\<dots> = map (map ?f) (splitWhere (\<lambda>c. ?f c = CHR '' '') s)"
    by (rule splitWhere_map)
  also have "splitWhere (\<lambda>c. ?f c = CHR '' '') s = splitWhere (\<lambda>c. c = CHR '','') s"
    using assms by (intro splitWhere_cong) auto
  also note pieces
  also have "splitWhere (\<lambda>c. c = CHR '','') s = split CHR '','' s"
    by (simp only: split_def)
  finally show ?thesis .
qed

text \<open>
  Claim C7, as the code has it. Without a \<^verbatim>\<open>sort\<close> parameter, and also with one that is
  the empty string, the query is sorted by the string \<^verbatim>\<open>-createdAt\<close>. With a \<^verbatim>\<open>sort\<close>
  parameter that is a non-empty string, the query is sorted by the parameter's
  comma-separated tokens joined by single spaces, which is the parameter with every comma
  replaced by a space: the tokens are handed over in input order, and when the parameter
  has no space they can be read back from the sort string in that order. So
  \<^verbatim>\<open>"name,-rating"\<close> is handed over as \<^verbatim>\<open>"name -rating"\<close>. A value that is not a string
  makes the handler throw. Which sort keys and directions the storage layer reads off
  the sort string is decided outside the controller.
\<close>

theorem sort_order:
  "((map_of q ''sort'' = None \<or> map_of q ''sort'' = Some (QStr [])) \<longrightarrow>
      sortFields q m = Inr (m\<lparr>sorted_by := Some ''-createdAt''\<rparr>))
   \<and> (\<forall>s. map_of q ''sort'' = Some (QStr s) \<and> s \<noteq> [] \<longrightarrow>
        sortFields q m = Inr (m\<lparr>sorted_by := Some (join '' '' (split CHR '','' s))\<rparr>))
   \<and> (\<forall>s. join '' '' (split CHR '','' s)
          = map (\<lambda>c. if c = CHR '','' then CHR '' '' else c) s)
   \<and> (\<forall>s. (\<forall>c\<in>set s. c \<noteq> CHR '' '') \<longrightarrow>
        split CHR '' '' (join '' '' (split CHR '','' s)) = split CHR '','' s)
   \<and> (\<forall>v. map_of q ''sort'' = Some v \<and> (\<forall>s. v \<noteq> QStr s) \<longrightarrow>
        sortFields q m = Inl (TypeError ''req.query.sort.split is not a function''))"
proof (intro conjI allI impI)
  assume "map_of q ''sort'' = None \<or> map_of q ''sort'' = Some (QStr [])"
  then show "sortFields q m = Inr (m\<lparr>sorted_by := Some ''-createdAt''\<rparr>)"
    by (auto simp: sortFields_def truthy_def)
next
  fix s
  assume "map_of q ''sort'' = Some (QStr s) \<and> s \<noteq> []"
  then show "sortFields q m = Inr (m\<lparr>sorted_by := Some (join '' '' (split CHR '','' s))\<rparr>)"
    by (simp add: sortFields_def truthy_def)
next
  fix s
  show "join '' '' (split CHR '','' s) = map (\<lambda>c. if c = CHR '','' then CHR '' '' else c) s"
    by (rule join_split_map)
next
  fix s
  assume "\<forall>c\<in>set s. c \<noteq> CHR '' ''"
  then show "split CHR '' '' (join '' '' (split CHR '','' s)) = split CHR '','' s"
    by (rule tokens_recovered)
next
  fix v
  assume "map_of q ''sort'' = Some v \<and> (\<forall>s. v \<noteq> QStr s)"
  then show "sortFields q m = Inl (TypeError ''req.query.sort.split is not a function'')"
    by (cases v) (simp_all add: sortFields_def truthy_def)
qed

theorem sort_order_witness:
  "sortFields [(''page'', QStr ''2'')] (find_query (QObj []))
     = Inr ((find_query (QObj []))\<lparr>sorted_by := Some ''-createdAt''\<rparr>)
   \<and> sortFields [(''sort'', QStr ''name,-rating'')] (find_query (QObj []))
     = Inr ((find_query (QObj []))\<lparr>sorted_by := Some ''name -rating''\<rparr>)
   \<and> split CHR '' '' ''name -rating'' = [''name'', ''-rating'']
   \<and> split CHR '','' ''name,-rating'' = [''name'', ''-rating'']
   \<and> sortFields [(''sort'', QArr [QStr ''name'', QStr ''age''])] (find_query (QObj []))
     = Inl (TypeError ''req.query.sort.split is not a function'')"
  using sort_order [of "[(''page'', QStr ''2'')]" "find_query (QObj [])"]
    sort_order [of "[(''sort'', QStr ''name,-rating'')]" "find_query (QObj [])"]
    sort_order [of "[(''sort'', QArr [QStr ''name'', QStr ''age''])]" "find_query (QObj [])"]
  by (simp add: split_def)

text \<open>
  A \<^verbatim>\<open>sort\<close> parameter that is present and empty is not sorted by its tokens but by
  \<^verbatim>\<open>-createdAt\<close>. And the parameters \<^verbatim>\<open>"first name,age"\<close> and \<^verbatim>\<open>"first,name,age"\<close>
  have different tokens and give the same query, so the tokens of the parameter are not
  what the query is sorted by.
\<close>

theorem empty_sort_counterexample:
  "map_of [(''sort'', QStr [])] ''sort'' = Some (QStr [])
   \<and> sortFields [(''sort'', QStr [])] (find_query (QObj []))
       = Inr ((find_query (QObj []))\<lparr>sorted_by := Some ''-createdAt''\<rparr>)
   \<and> sortFields [(''sort'', QStr [])] (find_query (QObj []))
       \<noteq> Inr ((find_query (QObj []))\<lparr>sorted_by := Some (join '' '' (split CHR '','' []))\<rparr>)
   \<and> split CHR '','' ''first name,age'' = [''first name'', ''age'']
   \<and> split CHR '','' ''first,name,age'' = [''first'', ''name'', ''age'']
   \<and> sortFields [(''sort'', QStr ''first name,age'')] (find_query (QObj []))
       = sortFields [(''sort'', QStr ''first,name,age'')] (find_query (QObj []))"
  by (simp add: sortFields_def truthy_def split_def find_query_def)

section \<open>The photo upload\<close>

text \<open>
  Claim C10. The checks of \<^verbatim>\<open>bootcampPhotoUpload\<close> come in a fixed order: an unknown
  bootcamp is answered with 404; a known bootcamp without uploaded files with 400; then
  a file whose mimetype does not start with \<^verbatim>\<open>image\<close> with 400; then a file larger than
  \<^verbatim>\<open>MAX_FILE_UPLOAD\<close> with 400. In each of these cases nothing is moved and nothing is
  updated; whenever a file was moved or the photo field updated, every check had passed.
\<close>

theorem upload_checks_in_order:
  "(findById w (params_id req) = Inr None \<longrightarrow>
      bootcampPhotoUpload w e req =
        (Next (ErrorResponse (''Bootcamp not found with id of '' @ params_id req) 404), []))
   \<and> (findById w (params_id req) = Inr (Some b) \<and> files req = None \<longrightarrow>
      bootcampPhotoUpload w e req = (Next (ErrorResponse ''Please upload a file'' 400), []))
   \<and> (findById w (params_id req) = Inr (Some b) \<and> files req = Some fs \<and> fs ''file'' = Some file
        \<and> \<not> prefix ''image'' (mimetype file) \<longrightarrow>
      bootcampPhotoUpload w e req = (Next (ErrorResponse ''Please upload an image file'' 400), []))
   \<and> (findById w (params_id req) = Inr (Some b) \<and> files req = Some fs \<and> fs ''file'' = Some file
        \<and> prefix ''image'' (mimetype file)
        \<and> MAX_FILE_UPLOAD e = Some mx \<and> toNumber w mx = Some n \<and> n < int (size_bytes file) \<longrightarrow>
      bootcampPhotoUpload w e req =
        (Next (ErrorResponse (''Please upload an image less than '' @ mx) 400), []))
   \<and> (snd (bootcampPhotoUpload w e req) \<noteq> [] \<longrightarrow>
        (\<exists>b fs file. findById w (params_id req) = Inr (Some b) \<and> files req = Some fs
           \<and> fs ''file'' = Some file \<and> prefix ''image'' (mimetype file)
           \<and> \<not> exceeds w (size_bytes file) (MAX_FILE_UPLOAD e)))"
proof (intro conjI impI)
  assume "snd (bootcampPhotoUpload w e req) \<noteq> []"
  then show "\<exists>b fs file. findById w (params_id req) = Inr (Some b) \<and> files req = Some fs
           \<and> fs ''file'' = Some file \<and> prefix ''image'' (mimetype file)
           \<and> \<not> exceeds w (size_bytes file) (MAX_FILE_UPLOAD e)"
    by (auto simp: bootcampPhotoUpload_def split: sum.splits option.splits if_splits)
qed (simp_all add: bootcampPhotoUpload_def exceeds_def envText_def)


theorem upload_checks_in_order_witness:
  "bootcampPhotoUpload w0 e0 \<lparr>params_id = ''zz'', files = Some (photo ''image/jpeg'' 500)\<rparr>
     = (Next (ErrorResponse ''Bootcamp not found with id of zz'' 404), [])
   \<and> bootcampPhotoUpload w0 e0 \<lparr>params_id = ''b1'', files = None\<rparr>
     = (Next (ErrorResponse ''Please upload a file'' 400), [])
   \<and> bootcampPhotoUpload w0 e0 \<lparr>params_id = ''b1'', files = Some (photo ''text/plain'' 500)\<rparr>
     = (Next (ErrorResponse ''Please upload an image file'' 400), [])
   \<and> bootcampPhotoUpload w0 e0 \<lparr>params_id = ''b1'', files = Some (photo ''image/jpeg'' 2000000)\<rparr>
     = (Next (ErrorResponse ''Please upload an image less than 1000000'' 400), [])
   \<and> bootcampPhotoUpload w0 e0 \<lparr>params_id = ''b1'', files = Some (photo ''image/jpeg'' 500)\<rparr>
     = (Responded 200 ''photo_b1.jpg'',
        [Mv ''./public/uploads/photo_b1.jpg'', UpdatePhoto ''b1'' ''photo_b1.jpg''])"
proof -
  let ?b = "\<lparr>doc_id = ''b1''\<rparr>"
  let ?big = "\<lparr>name = ''me.jpg'', mimetype = ''image/jpeg'', size_bytes = 2000000\<rparr>"
  let ?txt = "\<lparr>name = ''me.jpg'', mimetype = ''text/plain'', size_bytes = 500\<rparr>"
  have ok: "bootcampPhotoUpload w0 e0 \<lparr>params_id = ''b1'', files = Some (photo ''image/jpeg'' 500)\<rparr>
     = (Responded 200 ''photo_b1.jpg'',
        [Mv ''./public/uploads/photo_b1.jpg'', UpdatePhoto ''b1'' ''photo_b1.jpg''])"
    by (simp add: bootcampPhotoUpload_def w0_def e0_def photo_def exceeds_def envText_def Let_def)
  from upload_checks_in_order
         [of w0 "\<lparr>params_id = ''zz'', files = Some (photo ''image/jpeg'' 500)\<rparr>" e0]
       upload_checks_in_order
         [of w0 "\<lparr>params_id = ''b1'', files = None\<rparr>" e0 ?b]
       upload_checks_in_order
         [of w0 "\<lparr>params_id = ''b1'', files = Some (photo ''text/plain'' 500)\<rparr>" e0 ?b
             "photo ''text/plain'' 500" ?txt]
       upload_checks_in_order
         [of w0 "\<lparr>params_id = ''b1'', files = Some (photo ''image/jpeg'' 2000000)\<rparr>" e0 ?b
             "photo ''image/jpeg'' 2000000" ?big "''1000000''" 1000000]
       ok
  show ?thesis
    by (simp add: w0_def e0_def photo_def)
qed

end
